theory Spec2Isabelle
  imports Main "HOL-Library.Word"
begin

section \<open>Python values used by the program\<close>

text \<open>
  A Python \<open>str\<close> is a sequence of Unicode code points; a character is its code point
  (\<open>ord\<close>), so \<open>''A''\<close> is 65 and the Cyrillic capital A is 1040.  Python integers are
  unbounded and are modelled by \<open>int\<close>.  Exceptions are values of \<open>py_error\<close>.
\<close>

type_synonym codepoint = nat
type_synonym ustring = "codepoint list"

datatype py_error = ValueError | KeyError | OverflowError | OSError

definition ascii :: "string \<Rightarrow> ustring" where
  "ascii s = map of_char s"

text \<open>
  The functions of the Python runtime that the program calls and does not define: the
  Unicode character database behind \<open>str.upper\<close>, \<open>str.isalpha\<close>, \<open>str.isspace\<close>,
  \<open>str.isdigit\<close> and \<open>int\<close>, the limit \<open>sys.int_max_str_digits\<close> (0 means no limit),
  the floating-point expression \<open>int(math.sqrt(n))\<close>, and
  \<open>datetime.fromtimestamp(t).strftime('%A, %d %B %Y at %H:%M:%S UTC')\<close>, which depends
  on the local time zone and locale.  They are parameters of the model.
\<close>

record runtime =
  to_upper :: "codepoint \<Rightarrow> ustring"
  is_alpha :: "codepoint \<Rightarrow> bool"
  is_space :: "codepoint \<Rightarrow> bool"
  is_digit :: "codepoint \<Rightarrow> bool"
  decimal_value :: "codepoint \<Rightarrow> nat option"
  int_max_str_digits :: nat
  sqrt_trunc :: "int \<Rightarrow> py_error + int"
  strftime_local :: "int \<Rightarrow> py_error + ustring"

text \<open>\<open>s.upper()\<close>: the full upper-case mapping, character by character.\<close>

definition py_upper :: "runtime \<Rightarrow> ustring \<Rightarrow> ustring" where
  "py_upper R s = concat (map (to_upper R) s)"

text \<open>\<open>s.strip()\<close>: leading and trailing whitespace removed.\<close>

definition py_strip :: "runtime \<Rightarrow> ustring \<Rightarrow> ustring" where
  "py_strip R s = rev (dropWhile (is_space R) (rev (dropWhile (is_space R) s)))"

text \<open>\<open>s.isdigit()\<close>: at least one character and every character a digit.\<close>

definition py_isdigit :: "runtime \<Rightarrow> ustring \<Rightarrow> bool" where
  "py_isdigit R s = (s \<noteq> [] \<and> list_all (is_digit R) s)"

text \<open>
  \<open>int(s)\<close> for a string that passed \<open>isdigit\<close> (no sign, blank or underscore): every
  character must be a decimal digit, and the string no longer than the limit; otherwise
  \<open>ValueError\<close>.
\<close>

fun digit_values :: "runtime \<Rightarrow> ustring \<Rightarrow> nat list option" where
  "digit_values R [] = Some []"
| "digit_values R (c # cs) =
     (case decimal_value R c of
        None \<Rightarrow> None
      | Some d \<Rightarrow> (case digit_values R cs of None \<Rightarrow> None | Some ds \<Rightarrow> Some (d # ds)))"

definition from_digits :: "nat list \<Rightarrow> int" where
  "from_digits ds = foldl (\<lambda>acc d. 10 * acc + int d) 0 ds"

definition py_int :: "runtime \<Rightarrow> ustring \<Rightarrow> py_error + int" where
  "py_int R s =
     (if int_max_str_digits R \<noteq> 0 \<and> int_max_str_digits R < length s then Inl ValueError
      else case digit_values R s of
             None \<Rightarrow> Inl ValueError
           | Some ds \<Rightarrow> Inr (from_digits ds))"

text \<open>\<open>str(n)\<close> of an integer: decimal digits, with a minus sign when negative.\<close>

function digits10 :: "nat \<Rightarrow> ustring" where
  "digits10 n = (if n < 10 then [48 + n] else digits10 (n div 10) @ [48 + n mod 10])"
  by pat_completeness auto
termination
  by (relation "measure id") auto

declare digits10.simps [simp del]

definition py_str :: "int \<Rightarrow> ustring" where
  "py_str i = (if i < 0 then 45 # digits10 (nat (- i)) else digits10 (nat i))"

text \<open>\<open>s.split(sep)\<close> for a one-character separator, and \<open>sep.join(ts)\<close>.\<close>

fun py_split :: "codepoint \<Rightarrow> ustring \<Rightarrow> ustring list" where
  "py_split sep [] = [[]]"
| "py_split sep (c # cs) =
     (if c = sep then [] # py_split sep cs
      else (case py_split sep cs of
              [] \<Rightarrow> [[c]]
            | t # ts \<Rightarrow> (c # t) # ts))"

fun py_join :: "ustring \<Rightarrow> ustring list \<Rightarrow> ustring" where
  "py_join sep [] = []"
| "py_join sep [t] = t"
| "py_join sep (t # u # ts) = t @ sep @ py_join sep (u # ts)"

section \<open>The alphabet codec\<close>

definition ALPHABET_CYRILLIQUE :: "(codepoint \<times> int) list" where
  "ALPHABET_CYRILLIQUE =
     [(1040, 1), (1041, 2), (1042, 3), (1043, 4), (1044, 5), (1045, 6), (1025, 7),
      (1046, 8), (1047, 9), (1048, 10), (1049, 11), (1050, 12), (1051, 13), (1052, 14),
      (1053, 15), (1054, 16), (1055, 17), (1056, 18), (1057, 19), (1058, 20), (1059, 21),
      (1060, 22), (1061, 23), (1062, 24), (1063, 25), (1064, 26), (1065, 27), (1066, 28),
      (1067, 29), (1068, 30), (1069, 31), (1070, 32), (1071, 33)]"

text \<open>
  \<open>{v: k for k, v in ALPHABET_CYRILLIQUE.items()}\<close>: a later pair would replace an
  earlier one with the same key, hence the reversal before \<open>map_of\<close>.
\<close>

definition ALPHABET_INVERSE :: "(int \<times> codepoint) list" where
  "ALPHABET_INVERSE = rev (map (\<lambda>(k, v). (v, k)) ALPHABET_CYRILLIQUE)"

text \<open>The body of the loop of \<open>encoder_mot_cyrillique\<close>, and the loop.\<close>

fun encoder_loop :: "runtime \<Rightarrow> ustring \<Rightarrow> ustring list \<Rightarrow> ustring list" where
  "encoder_loop R [] resultat = resultat"
| "encoder_loop R (lettre # mot) resultat =
     (case map_of ALPHABET_CYRILLIQUE lettre of
        Some numero \<Rightarrow> encoder_loop R mot (resultat @ [py_str numero])
      | None \<Rightarrow>
          if is_alpha R lettre
          then encoder_loop R mot (resultat @ [py_str (int lettre - 65 + 1)])
          else encoder_loop R mot resultat)"

definition encoder_mot_cyrillique :: "runtime \<Rightarrow> ustring \<Rightarrow> ustring" where
  "encoder_mot_cyrillique R mot =
     py_join [46] (encoder_loop R (py_strip R (py_upper R mot)) [])"

text \<open>
  \<open>decoder_sequence_cyrillique\<close>: \<open>int\<close> may raise \<open>ValueError\<close>, a dictionary lookup
  \<open>KeyError\<close>; both leave the function.
\<close>

fun decoder_loop :: "runtime \<Rightarrow> ustring list \<Rightarrow> ustring \<Rightarrow> py_error + ustring" where
  "decoder_loop R [] mot_decode = Inr mot_decode"
| "decoder_loop R (nombre # nombres) mot_decode =
     (if py_isdigit R nombre then
        (case py_int R nombre of
           Inl e \<Rightarrow> Inl e
         | Inr numero \<Rightarrow>
             if 1 \<le> numero \<and> numero \<le> 33 then
               (case map_of ALPHABET_INVERSE numero of
                  None \<Rightarrow> Inl KeyError
                | Some lettre \<Rightarrow> decoder_loop R nombres (mot_decode @ [lettre]))
             else if 1 \<le> numero \<and> numero \<le> 26 then
               decoder_loop R nombres (mot_decode @ [nat (numero + 65 - 1)])
             else decoder_loop R nombres mot_decode)
      else decoder_loop R nombres mot_decode)"

definition decoder_sequence_cyrillique :: "runtime \<Rightarrow> ustring \<Rightarrow> py_error + ustring" where
  "decoder_sequence_cyrillique R sequence = decoder_loop R (py_split 46 sequence) []"

fun mot_vers_nombre_loop :: "ustring \<Rightarrow> int \<Rightarrow> int" where
  "mot_vers_nombre_loop [] total' = total'"
| "mot_vers_nombre_loop (lettre # mot) total' =
     (case map_of ALPHABET_CYRILLIQUE lettre of
        Some numero \<Rightarrow> mot_vers_nombre_loop mot (total' + numero)
      | None \<Rightarrow> mot_vers_nombre_loop mot total')"

definition mot_vers_nombre :: "runtime \<Rightarrow> ustring \<Rightarrow> int" where
  "mot_vers_nombre R mot = mot_vers_nombre_loop (py_strip R (py_upper R mot)) 0"

section \<open>The numeric analyser\<close>

text \<open>
  \<open>factorize\<close>: the two nested \<open>while\<close> loops.  Nothing in the inner loop bounds its
  running time by itself (it would spin on \<open>n = 0\<close>), so both loops are partial functions
  and \<open>None\<close> stands for a loop that does not end.
\<close>

partial_function (option) factorize_inner :: "int \<Rightarrow> int \<Rightarrow> int list \<Rightarrow> (int \<times> int list) option" where
  "factorize_inner n d factors =
     (if n mod d = 0 then factorize_inner (n div d) d (factors @ [d])
      else Some (n, factors))"

partial_function (option) factorize_outer :: "int \<Rightarrow> int \<Rightarrow> int list \<Rightarrow> int list option" where
  "factorize_outer n d factors =
     (if d * d \<le> n then
        Option.bind (factorize_inner n d factors)
          (\<lambda>r. factorize_outer (fst r) (d + 1) (snd r))
      else Some (if n > 1 then factors @ [n] else factors))"

declare factorize_inner.simps [code]
declare factorize_outer.simps [code]

definition factorize :: "int \<Rightarrow> int list option" where
  "factorize n = (if n < 2 then Some [n] else factorize_outer n 2 [])"

text \<open>
  \<open>is_prime\<close>: \<open>range(2, int(math.sqrt(n)) + 1)\<close> is the list \<open>[2..r]\<close> for
  \<open>r = int(math.sqrt(n))\<close>; the conversion of a large \<open>n\<close> to a float can raise.
\<close>

fun is_prime_loop :: "int \<Rightarrow> int list \<Rightarrow> bool" where
  "is_prime_loop n [] = True"
| "is_prime_loop n (i # rest) = (if n mod i = 0 then False else is_prime_loop n rest)"

definition is_prime :: "runtime \<Rightarrow> int \<Rightarrow> py_error + bool" where
  "is_prime R n =
     (if n < 2 then Inr False
      else case sqrt_trunc R n of
             Inl e \<Rightarrow> Inl e
           | Inr r \<Rightarrow> Inr (is_prime_loop n [2..r]))"

text \<open>
  \<open>math.isqrt\<close>: the exact integer square root, by halving the number of bits;
  \<open>ValueError\<close> on a negative argument.
\<close>

fun isqrt :: "nat \<Rightarrow> nat" where
  "isqrt n =
     (if n < 2 then n
      else let r = 2 * isqrt (n div 4)
           in if (r + 1) * (r + 1) \<le> n then r + 1 else r)"

declare isqrt.simps [simp del]

definition math_isqrt :: "int \<Rightarrow> py_error + int" where
  "math_isqrt n = (if n < 0 then Inl ValueError else Inr (int (isqrt (nat n))))"

text \<open>\<open>is_fibonacci\<close>: \<open>or\<close> evaluates its right operand only when the left one is false.\<close>

definition is_fibonacci :: "int \<Rightarrow> py_error + bool" where
  "is_fibonacci n =
     (if n < 0 then Inr False
      else let x = 5 * n * n in
        case math_isqrt (x + 4) of
          Inl e \<Rightarrow> Inl e
        | Inr a \<Rightarrow>
            if a ^ 2 = x + 4 then Inr True
            else (case math_isqrt (x - 4) of
                    Inl e \<Rightarrow> Inl e
                  | Inr b \<Rightarrow> Inr (b ^ 2 = x - 4)))"

text \<open>The two sentinel strings, as the code points of the source literals.\<close>

definition invalid_timestamp :: ustring where
  "invalid_timestamp =
     [1053, 1077, 1074, 1077, 1088, 1085, 1072, 1103, 32, 1080, 1083, 1080, 32, 1074, 1085,
      1077, 32, 1076, 1080, 1072, 1087, 1072, 1079, 1086, 1085, 1072, 32, 1084, 1077, 1090,
      1082, 1072, 32, 1074, 1088, 1077, 1084, 1077, 1085, 1080, 32]
     @ ascii ''(Invalid or out-of-range timestamp)''"


text \<open>
  \<open>unix_to_datetime\<close>: the \<open>try\<close> catches \<open>ValueError\<close> and \<open>OSError\<close> only; any other
  exception of the conversion would leave the function.
\<close>

definition unix_to_datetime :: "runtime \<Rightarrow> int \<Rightarrow> py_error + ustring" where
  "unix_to_datetime R timestamp =
     (if 0 \<le> timestamp \<and> timestamp \<le> 2000000000 then
        (case strftime_local R timestamp of
           Inr s \<Rightarrow> Inr s
         | Inl ValueError \<Rightarrow> Inr invalid_timestamp
         | Inl OSError \<Rightarrow> Inr invalid_timestamp
         | Inl e \<Rightarrow> Inl e)
      else Inr invalid_timestamp)"


text \<open>
  \<open>hex(n)\<close>, \<open>bin(n)\<close> and \<open>oct(n)\<close>: an optional minus sign, the prefix, and the digits
  of the magnitude in lower case.
\<close>

definition digit_char :: "nat \<Rightarrow> codepoint" where
  "digit_char d = (if d < 10 then 48 + d else 87 + d)"

function digits_base :: "nat \<Rightarrow> nat \<Rightarrow> ustring" where
  "digits_base b n =
     (if b < 2 \<or> n < b then [digit_char n]
      else digits_base b (n div b) @ [digit_char (n mod b)])"
  by pat_completeness auto
termination
  by (relation "measure snd") auto

declare digits_base.simps [simp del]

definition py_prefixed :: "codepoint \<Rightarrow> nat \<Rightarrow> int \<Rightarrow> ustring" where
  "py_prefixed letter b n =
     (if n < 0 then [45, 48, letter] @ digits_base b (nat (- n))
      else [48, letter] @ digits_base b (nat n))"

definition py_hex :: "int \<Rightarrow> ustring" where
  "py_hex n = py_prefixed 120 16 n"

definition py_bin :: "int \<Rightarrow> ustring" where
  "py_bin n = py_prefixed 98 2 n"

definition py_oct :: "int \<Rightarrow> ustring" where
  "py_oct n = py_prefixed 111 8 n"

text \<open>
  \<open>analyser_nombre\<close>, for the entries of the report computed from integers alone (the
  others are floats, digests and formatted strings).  The two source files differ in the
  labels: \<open>Truth.py\<close> has the English words, \<open>truth.py\<close> the bilingual ones.
\<close>

record analysis =
  decimal :: int
  hexadecimal :: ustring
  binary :: ustring
  octal :: ustring
  parity :: ustring
  factors :: "int list"
  prime_status :: ustring

record labels =
  label_odd :: ustring
  label_even :: ustring
  label_prime :: ustring
  label_composite :: ustring

definition labels_Truth :: labels where
  "labels_Truth =
     \<lparr>label_odd = ascii ''Odd'', label_even = ascii ''Even'',
      label_prime = ascii ''Prime'', label_composite = ascii ''Composite''\<rparr>"

definition labels_truth :: labels where
  "labels_truth =
     \<lparr>label_odd = [1053, 1077, 1095, 1077, 1090, 1085, 1086, 1077, 32] @ ascii ''(Odd)'',
      label_even = [1063, 1077, 1090, 1085, 1086, 1077, 32] @ ascii ''(Even)'',
      label_prime = [1055, 1088, 1086, 1089, 1090, 1086, 1077, 32] @ ascii ''(Prime)'',
      label_composite =
        [1057, 1086, 1089, 1090, 1072, 1074, 1085, 1086, 1077, 32] @ ascii ''(Composite)''\<rparr>"

definition analyser_nombre :: "labels \<Rightarrow> runtime \<Rightarrow> int \<Rightarrow> (py_error + analysis) option" where
  "analyser_nombre L R nombre =
     (case factorize nombre of
        None \<Rightarrow> None
      | Some fs \<Rightarrow>
          Some (case is_prime R nombre of
                  Inl e \<Rightarrow> Inl e
                | Inr p \<Rightarrow>
                    Inr \<lparr>decimal = nombre,
                         hexadecimal = py_upper R (drop 2 (py_hex nombre)),
                         binary = drop 2 (py_bin nombre),
                         octal = drop 2 (py_oct nombre),
                         parity = (if nombre mod 2 \<noteq> 0 then label_odd L else label_even L),
                         factors = fs,
                         prime_status = (if p then label_prime L else label_composite L)\<rparr>))"

text \<open>
  Membership in the primary alphabet (\<open>lettre in ALPHABET_CYRILLIQUE\<close>), and the code of
  a character, zero outside the alphabet.
\<close>

definition in_alphabet :: "codepoint \<Rightarrow> bool" where
  "in_alphabet c = (map_of ALPHABET_CYRILLIQUE c \<noteq> None)"

definition code_of :: "codepoint \<Rightarrow> int" where
  "code_of c = (case map_of ALPHABET_CYRILLIQUE c of Some k \<Rightarrow> k | None \<Rightarrow> 0)"

section \<open>Facts of the runtime that the claims rely on\<close>

text \<open>
  The Russian letters: the 33 capitals of \<open>ALPHABET_CYRILLIQUE\<close>, the small letters
  U+0430 to U+044F and U+0451, and their upper case.
\<close>

definition cyrillic_upper :: "codepoint \<Rightarrow> codepoint" where
  "cyrillic_upper c =
     (if 1072 \<le> c \<and> c \<le> 1103 then c - 32 else if c = 1105 then 1025 else c)"

definition russian_letters :: "codepoint list" where
  "russian_letters = map fst ALPHABET_CYRILLIQUE @ [1072..<1104] @ [1105]"

definition is_russian_letter :: "codepoint \<Rightarrow> bool" where
  "is_russian_letter c = (c \<in> set russian_letters)"

text \<open>
  What Unicode says of them: \<open>str.upper\<close> maps a Russian letter to its capital, and no
  capital is whitespace.
\<close>

definition russian_case_ok :: "runtime \<Rightarrow> bool" where
  "russian_case_ok R =
     (list_all (\<lambda>c. to_upper R c = [cyrillic_upper c]) russian_letters
      \<and> list_all (\<lambda>c. \<not> is_space R (fst c)) ALPHABET_CYRILLIQUE)"

text \<open>
  What Unicode says of the ASCII digits: each is a digit with its decimal value; and
  the limit on the length of a decimal literal, when there is one, is at least 2
  (CPython accepts no limit below 640).
\<close>

definition ascii_digits_ok :: "runtime \<Rightarrow> bool" where
  "ascii_digits_ok R =
     (list_all (\<lambda>d. is_digit R (48 + d) \<and> decimal_value R (48 + d) = Some d) [0..<10]
      \<and> (int_max_str_digits R = 0 \<or> 2 \<le> int_max_str_digits R))"

text \<open>
  \<open>int(math.sqrt(n))\<close> is the integer square root of \<open>n\<close>: true of IEEE doubles for
  \<open>0 \<le> n < 2^52\<close>, where \<open>n\<close> is a double and the correctly rounded root cannot reach
  the next integer.
\<close>

definition sqrt_exact_at :: "runtime \<Rightarrow> int \<Rightarrow> bool" where
  "sqrt_exact_at R n = (sqrt_trunc R n = Inr (int (isqrt (nat n))))"

text \<open>
  The small letter of a Russian letter; and what Unicode says of whitespace: it has no
  case, \<open>str.upper\<close> leaves it as it is.
\<close>

definition cyrillic_lower :: "codepoint \<Rightarrow> codepoint" where
  "cyrillic_lower c =
     (if 1040 \<le> c \<and> c \<le> 1071 then c + 32 else if c = 1025 then 1105 else c)"

definition spaces_uncased :: "runtime \<Rightarrow> bool" where
  "spaces_uncased R = (\<forall>c. is_space R c \<longrightarrow> to_upper R c = [c])"

section \<open>A sample runtime\<close>

text \<open>
  A runtime to evaluate the program at concrete inputs.  It agrees with CPython 3.11 on
  the code points below 128, on U+00B2 (superscript two, a digit with no decimal value),
  on U+00DF (sharp s, whose upper case is two letters), on U+03A9 (Greek capital omega)
  and on the Cyrillic block U+0400 to U+045F; on \<open>int(math.sqrt(n))\<close> for
  \<open>0 \<le> n < 2^52\<close>; and on the formatting of a timestamp when the local time zone is UTC
  and the locale is the C locale.  Elsewhere its values are placeholders.
\<close>

definition sample_to_upper :: "codepoint \<Rightarrow> ustring" where
  "sample_to_upper c =
     (if 97 \<le> c \<and> c \<le> 122 then [c - 32]
      else if c = 223 then [83, 83]
      else if 1072 \<le> c \<and> c \<le> 1103 then [c - 32]
      else if 1104 \<le> c \<and> c \<le> 1119 then [c - 80]
      else [c])"

definition sample_is_alpha :: "codepoint \<Rightarrow> bool" where
  "sample_is_alpha c =
     ((65 \<le> c \<and> c \<le> 90) \<or> (97 \<le> c \<and> c \<le> 122) \<or> c = 223 \<or> c = 937
      \<or> (1024 \<le> c \<and> c \<le> 1119))"

definition sample_is_space :: "codepoint \<Rightarrow> bool" where
  "sample_is_space c = ((9 \<le> c \<and> c \<le> 13) \<or> (28 \<le> c \<and> c \<le> 32))"

definition sample_is_digit :: "codepoint \<Rightarrow> bool" where
  "sample_is_digit c = ((48 \<le> c \<and> c \<le> 57) \<or> c = 178)"

definition sample_decimal_value :: "codepoint \<Rightarrow> nat option" where
  "sample_decimal_value c = (if 48 \<le> c \<and> c \<le> 57 then Some (c - 48) else None)"

definition sample_sqrt_trunc :: "int \<Rightarrow> py_error + int" where
  "sample_sqrt_trunc n =
     (if n < 0 then Inl ValueError
      else if n < 2 ^ 52 then Inr (int (isqrt (nat n)))
      else Inl OverflowError)"

text \<open>The civil date of a day number (days since 1970-01-01), proleptic Gregorian.\<close>

definition civil_from_days :: "int \<Rightarrow> int \<times> int \<times> int" where
  "civil_from_days days =
     (let z = days + 719468;
          era = z div 146097;
          doe = z mod 146097;
          yoe = (doe - doe div 1460 + doe div 36524 - doe div 146096) div 365;
          doy = doe - (365 * yoe + yoe div 4 - yoe div 100);
          mp = (5 * doy + 2) div 153;
          d = doy - (153 * mp + 2) div 5 + 1;
          m = (if mp < 10 then mp + 3 else mp - 9);
          y = yoe + era * 400 + (if m \<le> 2 then 1 else 0)
      in (y, m, d))"

definition day_names :: "string list" where
  "day_names =
     [''Sunday'', ''Monday'', ''Tuesday'', ''Wednesday'', ''Thursday'', ''Friday'',
      ''Saturday'']"

definition month_names :: "string list" where
  "month_names =
     [''January'', ''February'', ''March'', ''April'', ''May'', ''June'', ''July'',
      ''August'', ''September'', ''October'', ''November'', ''December'']"

definition two_digits :: "int \<Rightarrow> ustring" where
  "two_digits i = (if i < 10 then 48 # py_str i else py_str i)"

definition sample_strftime :: "int \<Rightarrow> py_error + ustring" where
  "sample_strftime t =
     (if t < 0 \<or> 253402300799 < t then Inl OverflowError
      else
        let days = t div 86400;
            secs = t mod 86400;
            (y, m, d) = civil_from_days days
        in Inr (ascii (day_names ! nat ((days + 4) mod 7)) @ ascii '', '' @ two_digits d
                @ ascii '' '' @ ascii (month_names ! nat (m - 1)) @ ascii '' '' @ py_str y
                @ ascii '' at '' @ two_digits (secs div 3600) @ ascii '':''
                @ two_digits (secs mod 3600 div 60) @ ascii '':'' @ two_digits (secs mod 60)
                @ ascii '' UTC''))"

definition cpython_sample :: runtime where
  "cpython_sample =
     \<lparr>to_upper = sample_to_upper, is_alpha = sample_is_alpha, is_space = sample_is_space,
      is_digit = sample_is_digit, decimal_value = sample_decimal_value,
      int_max_str_digits = 4300, sqrt_trunc = sample_sqrt_trunc,
      strftime_local = sample_strftime\<rparr>"

section \<open>IPv4 reinterpretation\<close>







section \<open>Strings, tokens and the alphabet\<close>

lemma encoder_loop_append:
  "encoder_loop R mot resultat = resultat @ encoder_loop R mot []"
proof (induction mot arbitrary: resultat)
  case Nil
  show ?case by simp
next
  case (Cons lettre mot)
  show ?case
    by (simp split: option.split)
       (metis Cons.IH append.assoc)
qed

lemma py_split_token:
  "sep \<notin> set t \<Longrightarrow> py_split sep (t @ sep # s) = t # py_split sep s"
  by (induction t) (auto split: list.splits)

lemma py_split_last: "sep \<notin> set t \<Longrightarrow> py_split sep t = [t]"
  by (induction t) (auto split: list.splits)

lemma py_split_join:
  "ts \<noteq> [] \<Longrightarrow> \<forall>t\<in>set ts. sep \<notin> set t \<Longrightarrow> py_split sep (py_join [sep] ts) = ts"
proof (induction "[sep]" ts rule: py_join.induct)
  case (1 )
  then show ?case by simp
next
  case (2 t)
  then show ?case by (simp add: py_split_last)
next
  case (3 t u ts)
  then show ?case by (simp add: py_split_token)
qed

(* digits *)
lemma from_digits_snoc: "from_digits (ds @ [d]) = 10 * from_digits ds + int d"
  by (simp add: from_digits_def)

lemma digit_values_append:
  "digit_values R (xs @ ys) =
     (case digit_values R xs of None \<Rightarrow> None
      | Some a \<Rightarrow> (case digit_values R ys of None \<Rightarrow> None | Some b \<Rightarrow> Some (a @ b)))"
  by (induction xs) (auto split: option.splits)

lemma ascii_digit_facts:
  assumes "ascii_digits_ok R" "d < 10"
  shows "is_digit R (48 + d)" "decimal_value R (48 + d) = Some d"
proof -
  have "d \<in> set [0..<10]" using assms(2) by simp
  with assms(1) show "is_digit R (48 + d)" "decimal_value R (48 + d) = Some d"
    unfolding ascii_digits_ok_def list_all_iff by blast+
qed

lemma digits10_set: "set (digits10 n) \<subseteq> {48..57}"
proof (induction n rule: digits10.induct)
  case (1 n)
  show ?case
  proof (cases "n < 10")
    case True
    then show ?thesis by (subst digits10.simps) auto
  next
    case False
    have "n mod 10 < 10" by simp
    then have "48 + n mod 10 \<in> {48..57}" by auto
    with 1 False show ?thesis by (subst digits10.simps) auto
  qed
qed

lemma digits10_nonempty: "digits10 n \<noteq> []"
  by (subst digits10.simps) simp

lemma digits10_length_small: "n < 100 \<Longrightarrow> length (digits10 n) \<le> 2"
  by (subst digits10.simps, subst digits10.simps) auto

lemma digits10_isdigit:
  assumes "ascii_digits_ok R"
  shows "py_isdigit R (digits10 n)"
proof -
  have "is_digit R c" if "c \<in> set (digits10 n)" for c
  proof -
    from that digits10_set [of n] have "48 \<le> c" "c \<le> 57" by auto
    then have "c = 48 + (c - 48)" "c - 48 < 10" by simp_all
    then obtain d where "c = 48 + d" "d < 10" by blast
    with assms show ?thesis by (simp add: ascii_digit_facts)
  qed
  then show ?thesis by (simp add: py_isdigit_def digits10_nonempty list_all_iff)
qed

lemma digits10_values:
  assumes "ascii_digits_ok R"
  shows "\<exists>ds. digit_values R (digits10 n) = Some ds \<and> from_digits ds = int n"
proof (induction n rule: digits10.induct)
  case (1 n)
  show ?case
  proof (cases "n < 10")
    case True
    then show ?thesis
      using assms by (subst digits10.simps) (simp add: ascii_digit_facts from_digits_def)
  next
    case False
    with 1 obtain ds where ds: "digit_values R (digits10 (n div 10)) = Some ds"
      "from_digits ds = int (n div 10)" by auto
    have m: "decimal_value R (48 + n mod 10) = Some (n mod 10)"
      using assms by (simp add: ascii_digit_facts)
    have "digit_values R (digits10 n) = Some (ds @ [n mod 10])"
      using False ds m by (subst digits10.simps) (simp add: digit_values_append)
    moreover have "from_digits (ds @ [n mod 10]) = int n"
      using ds by (simp add: from_digits_snoc zdiv_int zmod_int)
    ultimately show ?thesis by blast
  qed
qed

lemma alphabet_entries:
  "list_all (\<lambda>(c, k). 1 \<le> k \<and> k \<le> 33 \<and> map_of ALPHABET_INVERSE k = Some c
      \<and> map_of ALPHABET_CYRILLIQUE c = Some k \<and> 1025 \<le> c \<and> c \<le> 1071) ALPHABET_CYRILLIQUE"
  by (simp add: ALPHABET_CYRILLIQUE_def ALPHABET_INVERSE_def)

lemma alphabet_lookup:
  assumes "map_of ALPHABET_CYRILLIQUE c = Some k"
  shows "1 \<le> k" "k \<le> 33" "map_of ALPHABET_INVERSE k = Some c" "1025 \<le> c" "c \<le> 1071"
proof -
  from assms have "(c, k) \<in> set ALPHABET_CYRILLIQUE" by (rule map_of_SomeD)
  with alphabet_entries
  have "1 \<le> k \<and> k \<le> 33 \<and> map_of ALPHABET_INVERSE k = Some c \<and> 1025 \<le> c \<and> c \<le> 1071"
    unfolding list_all_iff by fastforce
  then show "1 \<le> k" "k \<le> 33" "map_of ALPHABET_INVERSE k = Some c" "1025 \<le> c" "c \<le> 1071"
    by simp_all
qed

lemma inverse_lookup:
  assumes "map_of ALPHABET_INVERSE k = Some c"
  shows "map_of ALPHABET_CYRILLIQUE c = Some k"
proof -
  from assms have "(k, c) \<in> set ALPHABET_INVERSE" by (rule map_of_SomeD)
  then have "(c, k) \<in> set ALPHABET_CYRILLIQUE" by (auto simp: ALPHABET_INVERSE_def)
  with alphabet_entries show ?thesis unfolding list_all_iff by fastforce
qed

lemma token_roundtrip:
  assumes "ascii_digits_ok R" "0 \<le> k" "k < 100"
  shows "py_isdigit R (py_str k)" "py_int R (py_str k) = Inr k" "46 \<notin> set (py_str k)"
proof -
  have s: "py_str k = digits10 (nat k)" using assms(2) by (simp add: py_str_def)
  show "py_isdigit R (py_str k)" unfolding s using assms(1) by (rule digits10_isdigit)
  obtain ds where ds: "digit_values R (digits10 (nat k)) = Some ds" "from_digits ds = int (nat k)"
    using digits10_values [OF assms(1)] by blast
  have len: "length (digits10 (nat k)) \<le> 2" using assms(2,3) by (simp add: digits10_length_small)
  have "\<not> (int_max_str_digits R \<noteq> 0 \<and> int_max_str_digits R < length (digits10 (nat k)))"
    using assms(1) len by (auto simp: ascii_digits_ok_def)
  then show "py_int R (py_str k) = Inr k"
    unfolding s py_int_def using ds assms(2) by simp
  show "46 \<notin> set (py_str k)" unfolding s using digits10_set [of "nat k"] by auto
qed

lemma decoder_loop_tokens:
  assumes "ascii_digits_ok R" "list_all in_alphabet u"
  shows "decoder_loop R (map (\<lambda>c. py_str (code_of c)) u) acc = Inr (acc @ u)"
  using assms(2)
proof (induction u arbitrary: acc)
  case Nil
  show ?case by simp
next
  case (Cons c u)
  then obtain k where k: "map_of ALPHABET_CYRILLIQUE c = Some k"
    by (auto simp: in_alphabet_def)
  have ck: "code_of c = k" using k by (simp add: code_of_def)
  note f = alphabet_lookup [OF k]
  have t: "py_isdigit R (py_str k)" "py_int R (py_str k) = Inr k"
    using token_roundtrip [OF assms(1), of k] f by simp_all
  from Cons have "decoder_loop R (map (\<lambda>c. py_str (code_of c)) u) (acc @ [c]) = Inr ((acc @ [c]) @ u)"
    by simp
  then show ?case using t f by (simp add: ck)
qed

lemma encoder_loop_alphabet:
  assumes "list_all in_alphabet u"
  shows "encoder_loop R u acc = acc @ map (\<lambda>c. py_str (code_of c)) u"
  using assms
proof (induction u arbitrary: acc)
  case Nil
  show ?case by simp
next
  case (Cons c u)
  then obtain k where k: "map_of ALPHABET_CYRILLIQUE c = Some k"
    by (auto simp: in_alphabet_def)
  with Cons show ?case by (simp add: code_of_def)
qed

lemma decoder_loop_alphabet_only:
  assumes "decoder_loop R toks acc = Inr s" "list_all in_alphabet acc"
  shows "list_all in_alphabet s"
  using assms
proof (induction toks arbitrary: acc)
  case Nil
  then show ?case by simp
next
  case (Cons t toks)
  show ?case
  proof (cases "py_isdigit R t")
    case False
    with Cons show ?thesis by simp
  next
    case True
    show ?thesis
    proof (cases "py_int R t")
      case (Inl e)
      with True Cons.prems show ?thesis by simp
    next
      case (Inr numero)
      show ?thesis
      proof (cases "1 \<le> numero \<and> numero \<le> 33")
        case False
        then have "\<not> (1 \<le> numero \<and> numero \<le> 26)" by auto
        with False True Inr Cons.prems have "decoder_loop R toks acc = Inr s"
          by (simp split: if_splits)
        with Cons show ?thesis by blast
      next
        case range: True
        show ?thesis
        proof (cases "map_of ALPHABET_INVERSE numero")
          case None
          with range True Inr Cons.prems show ?thesis by simp
        next
          case (Some lettre)
          then have "in_alphabet lettre"
            by (simp add: in_alphabet_def inverse_lookup)
          moreover have "decoder_loop R toks (acc @ [lettre]) = Inr s"
            using Some range True Inr Cons.prems by simp
          ultimately show ?thesis using Cons by simp
        qed
      qed
    qed
  qed
qed

text \<open>
  Claim C10.  Whenever \<open>decoder_sequence_cyrillique\<close> returns a string, every character
  of it is a symbol of the primary alphabet, and none is a basic Latin capital: the
  branch for \<open>1 \<le> numero \<le> 26\<close> lies behind the failed test \<open>1 \<le> numero \<le> 33\<close> and
  is never taken.
\<close>

theorem decoder_emits_alphabet_only:
  "decoder_sequence_cyrillique R sequence = Inr mot \<Longrightarrow>
     list_all (\<lambda>c. in_alphabet c \<and> \<not> (65 \<le> c \<and> c \<le> 90)) mot"
proof -
  assume "decoder_sequence_cyrillique R sequence = Inr mot"
  then have "decoder_loop R (py_split 46 sequence) [] = Inr mot"
    by (simp add: decoder_sequence_cyrillique_def)
  then have a: "list_all in_alphabet mot"
    by (rule decoder_loop_alphabet_only) simp
  have "\<not> (65 \<le> c \<and> c \<le> 90)" if "in_alphabet c" for c
  proof -
    from that obtain k where "map_of ALPHABET_CYRILLIQUE c = Some k"
      by (auto simp: in_alphabet_def)
    then have "1025 \<le> c" by (rule alphabet_lookup)
    then show ?thesis by simp
  qed
  with a show ?thesis by (auto simp: list_all_iff)
qed

theorem decoder_emits_alphabet_only_witness:
  "decoder_sequence_cyrillique cpython_sample (ascii ''1.26.x.0.33.34'') = Inr [1040, 1064, 1071]
   \<and> list_all (\<lambda>c. in_alphabet c \<and> \<not> (65 \<le> c \<and> c \<le> 90)) [1040, 1064, 1071]"
proof -
  have e: "decoder_sequence_cyrillique cpython_sample (ascii ''1.26.x.0.33.34'')
             = Inr [1040, 1064, 1071]"
    by code_simp
  from decoder_emits_alphabet_only [OF e] e show ?thesis by simp
qed

section \<open>Encoding and decoding Russian words\<close>

lemma russian_upper_in_alphabet:
  "list_all (\<lambda>c. in_alphabet (cyrillic_upper c)) russian_letters"
  by (simp add: russian_letters_def ALPHABET_CYRILLIQUE_def in_alphabet_def cyrillic_upper_def)

lemma sample_russian_case_ok: "russian_case_ok cpython_sample"
  by (simp add: russian_case_ok_def russian_letters_def ALPHABET_CYRILLIQUE_def
      cpython_sample_def sample_to_upper_def cyrillic_upper_def sample_is_space_def)

lemma sample_ascii_digits_ok: "ascii_digits_ok cpython_sample"
  by (simp add: ascii_digits_ok_def cpython_sample_def sample_is_digit_def
      sample_decimal_value_def upt_rec)

lemma russian_letter_facts:
  assumes "russian_case_ok R" "is_russian_letter c"
  shows "to_upper R c = [cyrillic_upper c]" "in_alphabet (cyrillic_upper c)"
proof -
  from assms(2) have m: "c \<in> set russian_letters" by (simp add: is_russian_letter_def)
  with assms(1) show "to_upper R c = [cyrillic_upper c]"
    unfolding russian_case_ok_def list_all_iff by blast
  from m russian_upper_in_alphabet show "in_alphabet (cyrillic_upper c)"
    unfolding list_all_iff by blast
qed

lemma alphabet_not_space:
  assumes "russian_case_ok R" "in_alphabet c"
  shows "\<not> is_space R c"
proof -
  from assms(2) obtain k where "map_of ALPHABET_CYRILLIQUE c = Some k"
    by (auto simp: in_alphabet_def)
  then have "(c, k) \<in> set ALPHABET_CYRILLIQUE" by (rule map_of_SomeD)
  with assms(1) show ?thesis unfolding russian_case_ok_def list_all_iff by fastforce
qed

lemma py_upper_russian:
  assumes "russian_case_ok R" "list_all is_russian_letter w"
  shows "py_upper R w = map cyrillic_upper w"
  using assms(2)
  by (induction w) (simp_all add: py_upper_def russian_letter_facts [OF assms(1)])

lemma dropWhile_none: "list_all (\<lambda>c. \<not> P c) xs \<Longrightarrow> dropWhile P xs = xs"
  by (cases xs) simp_all

lemma py_strip_no_space:
  assumes "list_all (\<lambda>c. \<not> is_space R c) u"
  shows "py_strip R u = u"
proof -
  have "list_all (\<lambda>c. \<not> is_space R c) (rev u)" using assms by (simp add: list_all_iff)
  then show ?thesis using assms by (simp add: py_strip_def dropWhile_none)
qed

lemma normalise_russian:
  assumes "russian_case_ok R" "list_all is_russian_letter w"
  shows "py_strip R (py_upper R w) = map cyrillic_upper w"
    "list_all in_alphabet (map cyrillic_upper w)"
proof -
  show a: "list_all in_alphabet (map cyrillic_upper w)"
    using assms(2) russian_letter_facts(2) [OF assms(1)] by (simp add: list_all_iff)
  then have "list_all (\<lambda>c. \<not> is_space R c) (map cyrillic_upper w)"
    using alphabet_not_space [OF assms(1)] by (simp add: list_all_iff)
  then show "py_strip R (py_upper R w) = map cyrillic_upper w"
    by (simp add: py_upper_russian [OF assms] py_strip_no_space)
qed

lemma encoder_russian:
  assumes "russian_case_ok R" "list_all is_russian_letter w"
  shows "encoder_mot_cyrillique R w =
           py_join [46] (map (\<lambda>c. py_str (code_of c)) (map cyrillic_upper w))"
  using normalise_russian [OF assms]
  by (simp add: encoder_mot_cyrillique_def encoder_loop_alphabet)

lemma code_of_range: "0 \<le> code_of c" "code_of c < 100"
proof -
  show "0 \<le> code_of c" "code_of c < 100"
    using alphabet_lookup(1,2) [of c]
    by (auto simp: code_of_def split: option.split) 
qed

lemma decoder_of_join:
  assumes "ascii_digits_ok R" "list_all in_alphabet u"
  shows "decoder_sequence_cyrillique R (py_join [46] (map (\<lambda>c. py_str (code_of c)) u)) = Inr u"
proof (cases "u = []")
  case True
  then show ?thesis by (simp add: decoder_sequence_cyrillique_def py_isdigit_def)
next
  case False
  let ?ts = "map (\<lambda>c. py_str (code_of c)) u"
  have "\<forall>t\<in>set ?ts. 46 \<notin> set t"
    using token_roundtrip(3) [OF assms(1)] code_of_range by auto
  moreover have "?ts \<noteq> []" using False by simp
  ultimately have "py_split 46 (py_join [46] ?ts) = ?ts" by (rule py_split_join [rotated])
  then show ?thesis
    using decoder_loop_tokens [OF assms, of "[]"] by (simp add: decoder_sequence_cyrillique_def)
qed

lemma mot_vers_nombre_loop_sum:
  "mot_vers_nombre_loop u t = t + sum_list (map code_of u)"
  by (induction u arbitrary: t) (auto simp: code_of_def split: option.split)

text \<open>
  Claim C1.  For a runtime in which \<open>str.upper\<close> maps the Russian letters to their
  capitals and the ASCII digits are decimal digits, and for every word \<open>w\<close> made of
  Russian letters (capital or small), decoding the encoding of \<open>w\<close> returns \<open>w.upper()\<close>.
\<close>

theorem decode_encode_roundtrip:
  assumes "russian_case_ok R" "ascii_digits_ok R" "list_all is_russian_letter w"
  shows "decoder_sequence_cyrillique R (encoder_mot_cyrillique R w) = Inr (py_upper R w)"
proof -
  have "decoder_sequence_cyrillique R (encoder_mot_cyrillique R w) = Inr (map cyrillic_upper w)"
    unfolding encoder_russian [OF assms(1,3)]
    using assms(2) normalise_russian(2) [OF assms(1,3)] by (rule decoder_of_join)
  then show ?thesis by (simp add: py_upper_russian [OF assms(1,3)])
qed

theorem decode_encode_roundtrip_witness:
  "russian_case_ok cpython_sample \<and> ascii_digits_ok cpython_sample
   \<and> list_all is_russian_letter [1055, 1088, 1080, 1074, 1077, 1090, 1025, 1105]
   \<and> decoder_sequence_cyrillique cpython_sample
         (encoder_mot_cyrillique cpython_sample [1055, 1088, 1080, 1074, 1077, 1090, 1025, 1105])
       = Inr [1055, 1056, 1048, 1042, 1045, 1058, 1025, 1025]"
proof -
  note h1 = sample_russian_case_ok
  note h2 = sample_ascii_digits_ok
  have h3: "list_all is_russian_letter [1055, 1088, 1080, 1074, 1077, 1090, 1025, 1105]"
    by (simp add: is_russian_letter_def russian_letters_def ALPHABET_CYRILLIQUE_def)
  have u: "py_upper cpython_sample [1055, 1088, 1080, 1074, 1077, 1090, 1025, 1105]
             = [1055, 1056, 1048, 1042, 1045, 1058, 1025, 1025]"
    by (simp add: py_upper_def cpython_sample_def sample_to_upper_def)
  from decode_encode_roundtrip [OF h1 h2 h3] h1 h2 h3 u show ?thesis by simp
qed

text \<open>
  Claim C2.  In such a runtime the word of code points 1055, 1056, 1048, 1042, 1045,
  1058 (the Russian greeting in capitals) encodes to \<open>17.18.10.3.6.20\<close>, its aggregate
  value is 74, and \<open>17.18.10.3.6.20\<close> decodes to the word.
\<close>

theorem privet_scenario:
  assumes "russian_case_ok R" "ascii_digits_ok R"
  shows "encoder_mot_cyrillique R [1055, 1056, 1048, 1042, 1045, 1058] = ascii ''17.18.10.3.6.20''
    \<and> mot_vers_nombre R [1055, 1056, 1048, 1042, 1045, 1058] = 74
    \<and> decoder_sequence_cyrillique R (ascii ''17.18.10.3.6.20'')
        = Inr [1055, 1056, 1048, 1042, 1045, 1058]"
proof -
  let ?w = "[1055, 1056, 1048, 1042, 1045, 1058] :: ustring"
  have r: "list_all is_russian_letter ?w"
    by (simp add: is_russian_letter_def russian_letters_def ALPHABET_CYRILLIQUE_def)
  have a: "list_all in_alphabet ?w"
    by (simp add: in_alphabet_def ALPHABET_CYRILLIQUE_def)
  have u: "map cyrillic_upper ?w = ?w"
    by (simp add: cyrillic_upper_def)
  have c: "map code_of ?w = [17, 18, 10, 3, 6, 20]"
    by (simp add: code_of_def ALPHABET_CYRILLIQUE_def)
  have m: "map (\<lambda>c. py_str (code_of c)) ?w = map py_str (map code_of ?w)"
    by (simp only: map_map comp_def)
  have "py_join [46] (map py_str [17, 18, 10, 3, 6, 20]) = ascii ''17.18.10.3.6.20''"
    by code_simp
  then have j: "py_join [46] (map (\<lambda>c. py_str (code_of c)) ?w) = ascii ''17.18.10.3.6.20''"
    by (simp only: m c)
  have v: "sum_list (map code_of ?w) = 74"
    by (simp only: c) simp
  have "encoder_mot_cyrillique R ?w = ascii ''17.18.10.3.6.20''"
    using encoder_russian [OF assms(1) r] by (simp only: u j)
  moreover have "mot_vers_nombre R ?w = 74"
    unfolding mot_vers_nombre_def normalise_russian(1) [OF assms(1) r] u
      mot_vers_nombre_loop_sum
    using v by simp
  moreover have "decoder_sequence_cyrillique R (ascii ''17.18.10.3.6.20'') = Inr ?w"
    using decoder_of_join [OF assms(2) a] by (simp only: j)
  ultimately show ?thesis by simp
qed

theorem privet_scenario_witness:
  "russian_case_ok cpython_sample \<and> ascii_digits_ok cpython_sample
   \<and> encoder_mot_cyrillique cpython_sample [1055, 1056, 1048, 1042, 1045, 1058]
       = [49, 55, 46, 49, 56, 46, 49, 48, 46, 51, 46, 54, 46, 50, 48]
   \<and> mot_vers_nombre cpython_sample [1055, 1056, 1048, 1042, 1045, 1058] = 74
   \<and> decoder_sequence_cyrillique cpython_sample
         [49, 55, 46, 49, 56, 46, 49, 48, 46, 51, 46, 54, 46, 50, 48]
       = Inr [1055, 1056, 1048, 1042, 1045, 1058]"
proof -
  note h1 = sample_russian_case_ok
  note h2 = sample_ascii_digits_ok
  have s: "ascii ''17.18.10.3.6.20'' = [49, 55, 46, 49, 56, 46, 49, 48, 46, 51, 46, 54, 46, 50, 48]"
    by (simp add: ascii_def)
  from privet_scenario [OF h1 h2] h1 h2 show ?thesis by (simp only: s simp_thms)
qed

section \<open>What the encoder does with other letters\<close>

lemma digits10_873: "digits10 873 = ascii ''873''"
  by (simp add: digits10.simps ascii_def)

text \<open>
  Claim C3.  The second branch of the encoder takes every character for which
  \<open>isalpha\<close> holds, not only the basic Latin letters its comment names: the Greek
  capital omega (U+03A9) is encoded as \<open>937 - 65 + 1 = 873\<close>, a token outside 1..33.
\<close>

theorem encoder_emits_non_latin_letter:
  "encoder_mot_cyrillique cpython_sample [937] = ascii ''873''"
  by (simp add: encoder_mot_cyrillique_def py_upper_def py_strip_def cpython_sample_def
      sample_to_upper_def sample_is_space_def sample_is_alpha_def ALPHABET_CYRILLIQUE_def
      py_str_def digits10_873)

section \<open>The aggregate value\<close>

lemma code_of_outside: "\<not> in_alphabet c \<Longrightarrow> code_of c = 0"
  by (simp add: in_alphabet_def code_of_def)

lemma sum_codes_filter:
  "sum_list (map code_of (filter in_alphabet xs)) = sum_list (map code_of xs)"
  by (induction xs) (simp_all add: code_of_outside)

lemma sum_dropWhile_zero:
  fixes f :: "'a \<Rightarrow> int"
  assumes "\<And>c. P c \<Longrightarrow> f c = 0"
  shows "sum_list (map f (dropWhile P xs)) = sum_list (map f xs)"
  by (induction xs) (simp_all add: assms)

lemma sum_codes_strip:
  assumes "russian_case_ok R"
  shows "sum_list (map code_of (py_strip R u)) = sum_list (map code_of u)"
proof -
  have z: "code_of c = 0" if "is_space R c" for c
    using that alphabet_not_space [OF assms, of c] code_of_outside by blast
  have r: "sum_list (map code_of (rev xs)) = sum_list (map code_of xs)" for xs :: ustring
    by (simp only: rev_map [symmetric] sum_list_rev)
  have "sum_list (map code_of (py_strip R u))
          = sum_list (map code_of (dropWhile (is_space R) (rev (dropWhile (is_space R) u))))"
    unfolding py_strip_def by (rule r)
  also have "\<dots> = sum_list (map code_of (rev (dropWhile (is_space R) u)))"
    using z by (rule sum_dropWhile_zero)
  also have "\<dots> = sum_list (map code_of (dropWhile (is_space R) u))"
    by (rule r)
  also have "\<dots> = sum_list (map code_of u)"
    using z by (rule sum_dropWhile_zero)
  finally show ?thesis .
qed

lemma mot_vers_nombre_sum:
  assumes "russian_case_ok R"
  shows "mot_vers_nombre R w = sum_list (map code_of (py_upper R w))"
  by (simp add: mot_vers_nombre_def mot_vers_nombre_loop_sum sum_codes_strip [OF assms])

lemma py_upper_case_variant:
  assumes "list_all2 (\<lambda>a b. to_upper R a = to_upper R b) w w'"
  shows "py_upper R w = py_upper R w'"
  using assms by (induction rule: list_all2_induct) (simp_all add: py_upper_def)

lemma sum_codes_upper_nonspace:
  assumes "russian_case_ok R" "spaces_uncased R"
  shows "sum_list (map code_of (py_upper R (filter (\<lambda>c. \<not> is_space R c) w)))
           = sum_list (map code_of (py_upper R w))"
proof (induction w)
  case Nil
  show ?case by simp
next
  case (Cons c w)
  show ?case
  proof (cases "is_space R c")
    case True
    then have "to_upper R c = [c]" using assms(2) by (simp add: spaces_uncased_def)
    moreover have "code_of c = 0"
      using True alphabet_not_space [OF assms(1), of c] code_of_outside by blast
    ultimately show ?thesis using True Cons by (simp add: py_upper_def)
  next
    case False
    then show ?thesis using Cons by (simp add: py_upper_def)
  qed
qed

lemma russian_case_maps:
  "list_all (\<lambda>c. is_russian_letter (cyrillic_lower c) \<and> is_russian_letter (cyrillic_upper c)
      \<and> cyrillic_upper (cyrillic_lower c) = cyrillic_upper c
      \<and> cyrillic_upper (cyrillic_upper c) = cyrillic_upper c) russian_letters"
  by (simp add: is_russian_letter_def russian_letters_def ALPHABET_CYRILLIQUE_def
      cyrillic_upper_def cyrillic_lower_def)

lemma py_upper_russian_variants:
  assumes "russian_case_ok R" "list_all is_russian_letter w"
  shows "py_upper R (map cyrillic_lower w) = py_upper R w"
    "py_upper R (map cyrillic_upper w) = py_upper R w"
proof -
  have f: "is_russian_letter (cyrillic_lower c) \<and> is_russian_letter (cyrillic_upper c)
      \<and> cyrillic_upper (cyrillic_lower c) = cyrillic_upper c
      \<and> cyrillic_upper (cyrillic_upper c) = cyrillic_upper c" if "is_russian_letter c" for c
    using that russian_case_maps unfolding list_all_iff is_russian_letter_def by blast
  have l: "list_all is_russian_letter (map cyrillic_lower w)"
    and u: "list_all is_russian_letter (map cyrillic_upper w)"
    using assms(2) f by (simp_all add: list_all_iff)
  show "py_upper R (map cyrillic_lower w) = py_upper R w"
    unfolding py_upper_russian [OF assms(1) l] py_upper_russian [OF assms]
    using assms(2) f by (simp add: list_all_iff)
  show "py_upper R (map cyrillic_upper w) = py_upper R w"
    unfolding py_upper_russian [OF assms(1) u] py_upper_russian [OF assms]
    using assms(2) f by (simp add: list_all_iff)
qed

lemma sample_spaces_uncased: "spaces_uncased cpython_sample"
  by (auto simp: spaces_uncased_def cpython_sample_def sample_is_space_def sample_to_upper_def)

text \<open>
  Claim C4.  In a runtime with the Unicode facts on Russian letters and whitespace,
  \<open>mot_vers_nombre w\<close> is the sum of the codes of the primary-alphabet characters of
  \<open>w.upper()\<close>; a basic Latin capital has code zero; the value is the same for two words
  that differ in case only (character by character the same upper case; in particular
  a word of Russian letters put in small or in capital letters), and for two words that
  differ in whitespace only.
\<close>

theorem mot_vers_nombre_sum_and_invariance:
  assumes "russian_case_ok R" "spaces_uncased R"
  shows "mot_vers_nombre R w = sum_list (map code_of (filter in_alphabet (py_upper R w)))
    \<and> (\<forall>c. 65 \<le> c \<and> c \<le> 90 \<longrightarrow> code_of c = 0)
    \<and> (list_all2 (\<lambda>a b. to_upper R a = to_upper R b) w w' \<longrightarrow>
          mot_vers_nombre R w' = mot_vers_nombre R w)
    \<and> (list_all is_russian_letter w \<longrightarrow>
          mot_vers_nombre R (map cyrillic_lower w) = mot_vers_nombre R w
          \<and> mot_vers_nombre R (map cyrillic_upper w) = mot_vers_nombre R w)
    \<and> (filter (\<lambda>c. \<not> is_space R c) w = filter (\<lambda>c. \<not> is_space R c) w' \<longrightarrow>
          mot_vers_nombre R w' = mot_vers_nombre R w)"
proof (intro conjI allI impI)
  show "mot_vers_nombre R w = sum_list (map code_of (filter in_alphabet (py_upper R w)))"
    by (simp add: mot_vers_nombre_sum [OF assms(1)] sum_codes_filter)
next
  fix c :: codepoint
  assume "65 \<le> c \<and> c \<le> 90"
  then have "\<not> in_alphabet c"
    by (cases "map_of ALPHABET_CYRILLIQUE c") (auto simp: in_alphabet_def dest: alphabet_lookup(4))
  then show "code_of c = 0" by (rule code_of_outside)
next
  assume "list_all2 (\<lambda>a b. to_upper R a = to_upper R b) w w'"
  then have "py_upper R w = py_upper R w'" by (rule py_upper_case_variant)
  then show "mot_vers_nombre R w' = mot_vers_nombre R w"
    by (simp add: mot_vers_nombre_def)
next
  assume r: "list_all is_russian_letter w"
  show "mot_vers_nombre R (map cyrillic_lower w) = mot_vers_nombre R w"
    by (simp add: mot_vers_nombre_def py_upper_russian_variants [OF assms(1) r])
  show "mot_vers_nombre R (map cyrillic_upper w) = mot_vers_nombre R w"
    by (simp add: mot_vers_nombre_def py_upper_russian_variants [OF assms(1) r])
next
  assume e: "filter (\<lambda>c. \<not> is_space R c) w = filter (\<lambda>c. \<not> is_space R c) w'"
  have "mot_vers_nombre R w' = sum_list (map code_of (py_upper R (filter (\<lambda>c. \<not> is_space R c) w')))"
    by (simp add: mot_vers_nombre_sum [OF assms(1)] sum_codes_upper_nonspace [OF assms])
  also have "\<dots> = mot_vers_nombre R w"
    by (simp add: e [symmetric] mot_vers_nombre_sum [OF assms(1)] sum_codes_upper_nonspace [OF assms])
  finally show "mot_vers_nombre R w' = mot_vers_nombre R w" .
qed

theorem mot_vers_nombre_sum_and_invariance_witness:
  "russian_case_ok cpython_sample \<and> spaces_uncased cpython_sample
   \<and> mot_vers_nombre cpython_sample [32, 1055, 1088, 32, 104, 73, 1080, 1074, 1077, 1090, 9] = 74
   \<and> sum_list (map code_of (filter in_alphabet
         (py_upper cpython_sample [32, 1055, 1088, 32, 104, 73, 1080, 1074, 1077, 1090, 9]))) = 74
   \<and> code_of 73 = 0
   \<and> list_all2 (\<lambda>a b. to_upper cpython_sample a = to_upper cpython_sample b)
         [32, 1055, 1088, 32, 104, 73, 1080, 1074, 1077, 1090, 9]
         [32, 1087, 1056, 32, 72, 105, 1080, 1042, 1077, 1058, 9]
   \<and> mot_vers_nombre cpython_sample [32, 1087, 1056, 32, 72, 105, 1080, 1042, 1077, 1058, 9] = 74
   \<and> list_all is_russian_letter [1055, 1088, 1080, 1074, 1077, 1090]
   \<and> mot_vers_nombre cpython_sample (map cyrillic_lower [1055, 1088, 1080, 1074, 1077, 1090]) = 74
   \<and> mot_vers_nombre cpython_sample (map cyrillic_upper [1055, 1088, 1080, 1074, 1077, 1090]) = 74
   \<and> filter (\<lambda>c. \<not> is_space cpython_sample c) [1055, 1088, 1080, 1074, 1077, 1090]
       = filter (\<lambda>c. \<not> is_space cpython_sample c) [1055, 32, 1088, 1080, 10, 9, 1074, 1077, 1090, 32]
   \<and> mot_vers_nombre cpython_sample [1055, 32, 1088, 1080, 10, 9, 1074, 1077, 1090, 32] = 74"
proof -
  note h1 = sample_russian_case_ok
  note h2 = sample_spaces_uncased
  let ?w = "[32, 1055, 1088, 32, 104, 73, 1080, 1074, 1077, 1090, 9] :: ustring"
  let ?c = "[32, 1087, 1056, 32, 72, 105, 1080, 1042, 1077, 1058, 9] :: ustring"
  let ?r = "[1055, 1088, 1080, 1074, 1077, 1090] :: ustring"
  let ?s = "[1055, 32, 1088, 1080, 10, 9, 1074, 1077, 1090, 32] :: ustring"
  have u: "py_upper cpython_sample ?w = [32, 1055, 1056, 32, 72, 73, 1048, 1042, 1045, 1058, 9]"
    by (simp add: py_upper_def cpython_sample_def sample_to_upper_def)
  have f: "filter in_alphabet [32, 1055, 1056, 32, 72, 73, 1048, 1042, 1045, 1058, 9]
             = [1055, 1056, 1048, 1042, 1045, 1058]"
    by (simp add: in_alphabet_def ALPHABET_CYRILLIQUE_def)
  have c: "map code_of [1055, 1056, 1048, 1042, 1045, 1058] = [17, 18, 10, 3, 6, 20]"
    by (simp add: code_of_def ALPHABET_CYRILLIQUE_def)
  have v: "sum_list (map code_of (filter in_alphabet (py_upper cpython_sample ?w))) = 74"
    by (simp only: u f c) simp
  have cv: "list_all2 (\<lambda>a b. to_upper cpython_sample a = to_upper cpython_sample b) ?w ?c"
    by (simp add: cpython_sample_def sample_to_upper_def)
  have rl: "list_all is_russian_letter ?r"
    by (simp add: is_russian_letter_def russian_letters_def ALPHABET_CYRILLIQUE_def)
  have sp: "filter (\<lambda>c. \<not> is_space cpython_sample c) ?r
              = filter (\<lambda>c. \<not> is_space cpython_sample c) ?s"
    by (simp add: cpython_sample_def sample_is_space_def)
  have ur: "py_upper cpython_sample ?r = [1055, 1056, 1048, 1042, 1045, 1058]"
    by (simp add: py_upper_def cpython_sample_def sample_to_upper_def)
  have "filter in_alphabet [1055, 1056, 1048, 1042, 1045, 1058] = [1055, 1056, 1048, 1042, 1045, 1058]"
    by (simp add: in_alphabet_def ALPHABET_CYRILLIQUE_def)
  then have vr: "sum_list (map code_of (filter in_alphabet (py_upper cpython_sample ?r))) = 74"
    by (simp only: ur c) simp
  from mot_vers_nombre_sum_and_invariance [OF h1 h2, of ?w ?c] v cv
  have a: "mot_vers_nombre cpython_sample ?w = 74" "code_of 73 = 0"
    "mot_vers_nombre cpython_sample ?c = 74"
    by simp_all
  from mot_vers_nombre_sum_and_invariance [OF h1 h2, of ?r ?s] vr rl sp
  have b: "mot_vers_nombre cpython_sample (map cyrillic_lower ?r) = 74"
    "mot_vers_nombre cpython_sample (map cyrillic_upper ?r) = 74"
    "mot_vers_nombre cpython_sample ?s = 74"
    by simp_all
  from h1 h2 a b v cv rl sp show ?thesis by (simp only: simp_thms)
qed

end
